theory Spec2Isabelle
  imports Complex_Main "HOL-Library.Word"
begin

section \<open>Virtual on-screen controls: the data model of virtual\_controls.c\<close>

text \<open>
  The module keeps its state in file-level statics; here they are the fields of one record
  that every entry point takes and returns. What the module sends to its collaborators is
  recorded in the same record: the key events handed to \<open>SDL_PushEvent\<close>, the lines
  handed to \<open>SDL_Log\<close>, and the OpenGL calls in the order they are issued.

  Coordinates are C \<open>float\<close>s. The model is polymorphic in the coordinate type \<open>'c\<close>
  and asks of it only the operations the code applies (\<open>\<le>\<close>, \<open>+\<close>, \<open>/\<close>, literals),
  with no law assumed about them. Every theorem below therefore holds for any reading of
  these operations, rounding and unordered values included; concrete inputs are evaluated
  over \<open>rat\<close>.
\<close>

type_synonym SDL_Keycode = int
type_synonym GLuint = "32 word"
type_synonym GLint = int

definition MAX_BUTTONS :: int where
  "MAX_BUTTONS = 16"

text \<open>Constants of the SDL2 headers that the code names.\<close>

definition SDL_KEYDOWN :: "32 word" where "SDL_KEYDOWN = 0x300"
definition SDL_KEYUP :: "32 word" where "SDL_KEYUP = 0x301"
definition SDL_FINGERDOWN :: "32 word" where "SDL_FINGERDOWN = 0x700"
definition SDL_FINGERUP :: "32 word" where "SDL_FINGERUP = 0x701"
definition SDL_FINGERMOTION :: "32 word" where "SDL_FINGERMOTION = 0x702"
definition SDL_RELEASED :: "8 word" where "SDL_RELEASED = 0"
definition SDL_PRESSED :: "8 word" where "SDL_PRESSED = 1"
definition SDLK_RETURN :: SDL_Keycode where "SDLK_RETURN = 13"
definition SDLK_RIGHT :: SDL_Keycode where "SDLK_RIGHT = 0x4000004F"
definition SDLK_LEFT :: SDL_Keycode where "SDLK_LEFT = 0x40000050"
definition SDLK_DOWN :: SDL_Keycode where "SDLK_DOWN = 0x40000051"
definition SDLK_UP :: SDL_Keycode where "SDLK_UP = 0x40000052"

text \<open>\<open>struct VC_Button\<close> of virtual\_controls.h; the fields carry the prefix \<open>btn_\<close>.\<close>

record 'c VC_Button =
  btn_x :: 'c
  btn_y :: 'c
  btn_w :: 'c
  btn_h :: 'c
  btn_key :: SDL_Keycode
  btn_id :: int
  btn_pressed :: int

text \<open>
  The fields of the \<open>SDL_Event\<close> that \<open>synthesize_key\<close> fills in from its arguments.
  The timestamp (\<open>SDL_GetTicks\<close>) and the scancode (\<open>SDL_GetScancodeFromKey\<close>) come from
  SDL and are left out.
\<close>

record SDL_KeyboardEvent =
  ev_type :: "32 word"
  ev_windowID :: "32 word"
  ev_state :: "8 word"
  ev_repeat :: "8 word"
  ev_sym :: SDL_Keycode
  ev_mod :: "16 word"

text \<open>The fields of the incoming events that the handlers read.\<close>

record 'c SDL_TouchFingerEvent =
  tf_type :: "32 word"
  tf_x :: 'c
  tf_y :: 'c

record SDL_MouseButtonEvent =
  mb_state :: "8 word"
  mb_x :: int
  mb_y :: int

text \<open>The OpenGL calls of the module, with the arguments that vary.\<close>

datatype gl_shader_type = GL_VERTEX_SHADER | GL_FRAGMENT_SHADER

datatype gl_cap = GL_DEPTH_TEST | GL_BLEND

datatype gl_call =
    GlCreateShader gl_shader_type
  | GlShaderSource GLuint
  | GlCompileShader GLuint
  | GlGetShaderiv GLuint
  | GlGetShaderInfoLog GLuint
  | GlCreateProgram
  | GlAttachShader GLuint GLuint
  | GlBindAttribLocation GLuint GLuint string
  | GlLinkProgram GLuint
  | GlGetProgramiv GLuint
  | GlGetProgramInfoLog GLuint
  | GlDeleteShader GLuint
  | GlGenBuffers
  | GlIsEnabled gl_cap
  | GlDisable gl_cap
  | GlEnable gl_cap
  | GlDepthMask bool
  | GlBlendFunc
  | GlUseProgram GLuint
  | GlBindBuffer GLuint
  | GlBufferData int
  | GlEnableVertexAttribArray GLint
  | GlVertexAttribPointer GLint int
  | GlDrawArrays int
  | GlDisableVertexAttribArray GLint
  | GlDeleteBuffers GLuint
  | GlDeleteProgram GLuint

text \<open>
  What the OpenGL driver answers during one call of the module: the handles it hands out,
  the compile and link status values with their info logs, and the two capability queries
  of the draw routine.
\<close>

record gl_driver =
  drv_vs :: GLuint
  drv_vs_status :: GLint
  drv_vs_info :: string
  drv_fs :: GLuint
  drv_fs_status :: GLint
  drv_fs_info :: string
  drv_prog :: GLuint
  drv_link_status :: GLint
  drv_link_info :: string
  drv_vbo :: GLuint
  drv_depth_test :: bool
  drv_blend :: bool

record 'c vc_state =
  vc_prog :: GLuint
  vc_loc_pos :: GLint
  vc_loc_col :: GLint
  vc_vbo :: GLuint
  buttons :: "'c VC_Button list"
  button_count :: int
  window_w :: int
  window_h :: int
  sdl_events :: "SDL_KeyboardEvent list"
  sdl_log :: "string list"
  gl_calls :: "gl_call list"

text \<open>The statics as the C initialisers leave them, before any call.\<close>

definition zero_button :: "'c::zero VC_Button" where
  "zero_button = \<lparr>btn_x = 0, btn_y = 0, btn_w = 0, btn_h = 0,
     btn_key = 0, btn_id = 0, btn_pressed = 0\<rparr>"

definition vc_static_init :: "'c::zero vc_state" where
  "vc_static_init = \<lparr>vc_prog = 0, vc_loc_pos = - 1, vc_loc_col = - 1, vc_vbo = 0,
     buttons = replicate (nat MAX_BUTTONS) zero_button, button_count = 0,
     window_w = 800, window_h = 600,
     sdl_events = [], sdl_log = [], gl_calls = []\<rparr>"

text \<open>
  The array has \<open>MAX_BUTTONS\<close> slots and the count stays within it; the code indexes
  the array below the count only.
\<close>

definition vc_inv :: "'c vc_state \<Rightarrow> bool" where
  "vc_inv s \<longleftrightarrow>
     int (length (buttons s)) = MAX_BUTTONS \<and> 0 \<le> button_count s \<and> button_count s \<le> MAX_BUTTONS"

section \<open>Geometry and state store\<close>

definition vc_add_button ::
  "'c \<Rightarrow> 'c \<Rightarrow> 'c \<Rightarrow> 'c \<Rightarrow> SDL_Keycode \<Rightarrow> 'c vc_state \<Rightarrow> int \<times> 'c vc_state" where
  "vc_add_button x y w h key s =
     (if button_count s \<ge> MAX_BUTTONS then (- 1, s)
      else (button_count s,
            s\<lparr>buttons := (buttons s)[nat (button_count s) :=
                   \<lparr>btn_x = x, btn_y = y, btn_w = w, btn_h = h,
                    btn_key = key, btn_id = button_count s, btn_pressed = 0\<rparr>],
              button_count := button_count s + 1\<rparr>))"

text \<open>
  The float literals of the layout are written as quotients of numerals in the coordinate
  type. The return values of \<open>vc_add_button\<close> are dropped, as in the source.
\<close>

definition VirtualControls_Init ::
  "int \<Rightarrow> int \<Rightarrow> 'c::{zero,numeral,inverse} vc_state \<Rightarrow> int \<times> 'c vc_state" where
  "VirtualControls_Init win_w win_h s =
     (let s0 = s\<lparr>window_w := win_w, window_h := win_h, button_count := 0,
                 buttons := replicate (nat MAX_BUTTONS) zero_button\<rparr>;
          s1 = snd (vc_add_button (5 / 100) (75 / 100) (12 / 100) (18 / 100) SDLK_LEFT s0);
          s2 = snd (vc_add_button (22 / 100) (75 / 100) (12 / 100) (18 / 100) SDLK_DOWN s1);
          s3 = snd (vc_add_button (22 / 100) (55 / 100) (12 / 100) (18 / 100) SDLK_UP s2);
          s4 = snd (vc_add_button (39 / 100) (75 / 100) (12 / 100) (18 / 100) SDLK_RIGHT s3);
          s5 = snd (vc_add_button (80 / 100) (75 / 100) (15 / 100) (18 / 100) SDLK_RETURN s4)
      in (0, s5))"

definition VirtualControls_OnWindowResized :: "int \<Rightarrow> int \<Rightarrow> 'c vc_state \<Rightarrow> 'c vc_state" where
  "VirtualControls_OnWindowResized new_w new_h s = s\<lparr>window_w := new_w, window_h := new_h\<rparr>"

definition point_in_button :: "'c::{ord,plus} VC_Button \<Rightarrow> 'c \<Rightarrow> 'c \<Rightarrow> bool" where
  "point_in_button b px_norm py_norm \<longleftrightarrow>
     px_norm \<ge> btn_x b \<and> px_norm \<le> btn_x b + btn_w b \<and>
     py_norm \<ge> btn_y b \<and> py_norm \<le> btn_y b + btn_h b"

section \<open>Input translator\<close>

definition synthesize_key :: "SDL_Keycode \<Rightarrow> int \<Rightarrow> 'c vc_state \<Rightarrow> 'c vc_state" where
  "synthesize_key key isdown s =
     s\<lparr>sdl_events := sdl_events s @
         [\<lparr>ev_type = (if isdown \<noteq> 0 then SDL_KEYDOWN else SDL_KEYUP),
           ev_windowID = 0,
           ev_state = (if isdown \<noteq> 0 then SDL_PRESSED else SDL_RELEASED),
           ev_repeat = 0,
           ev_sym = key,
           ev_mod = 0\<rparr>]\<rparr>"

text \<open>The assignment \<open>buttons[i].pressed = v\<close>.\<close>

definition set_pressed :: "nat \<Rightarrow> int \<Rightarrow> 'c vc_state \<Rightarrow> 'c vc_state" where
  "set_pressed i v s = s\<lparr>buttons := (buttons s)[i := (buttons s ! i)\<lparr>btn_pressed := v\<rparr>]\<rparr>"

text \<open>
  A loop \<open>for (int i=0;i<button_count;++i)\<close> whose body leaves \<open>button_count\<close> alone
  runs the body at \<open>0, 1, \<dots>, button_count - 1\<close>.
\<close>

definition for_buttons :: "(nat \<Rightarrow> 'c vc_state \<Rightarrow> 'c vc_state) \<Rightarrow> 'c vc_state \<Rightarrow> 'c vc_state" where
  "for_buttons body s = fold body [0..<nat (button_count s)] s"

text \<open>The three loop bodies of the finger handler and the two of the mouse handler.\<close>

definition finger_down_body :: "'c::{ord,plus} \<Rightarrow> 'c \<Rightarrow> nat \<Rightarrow> 'c vc_state \<Rightarrow> 'c vc_state" where
  "finger_down_body nx ny i s =
     (if \<not> btn_pressed (buttons s ! i) \<noteq> 0 \<and> point_in_button (buttons s ! i) nx ny
      then synthesize_key (btn_key (buttons s ! i)) 1 (set_pressed i 1 s)
      else s)"

definition finger_up_body :: "'c::{ord,plus} \<Rightarrow> 'c \<Rightarrow> nat \<Rightarrow> 'c vc_state \<Rightarrow> 'c vc_state" where
  "finger_up_body nx ny i s =
     (if btn_pressed (buttons s ! i) \<noteq> 0 \<and> point_in_button (buttons s ! i) nx ny
      then synthesize_key (btn_key (buttons s ! i)) 0 (set_pressed i 0 s)
      else s)"

definition finger_motion_body :: "'c::{ord,plus} \<Rightarrow> 'c \<Rightarrow> nat \<Rightarrow> 'c vc_state \<Rightarrow> 'c vc_state" where
  "finger_motion_body nx ny i s =
     (if btn_pressed (buttons s ! i) \<noteq> 0 \<and> \<not> point_in_button (buttons s ! i) nx ny
      then synthesize_key (btn_key (buttons s ! i)) 0 (set_pressed i 0 s)
      else s)"

definition mouse_pressed_body :: "'c::{ord,plus} \<Rightarrow> 'c \<Rightarrow> nat \<Rightarrow> 'c vc_state \<Rightarrow> 'c vc_state" where
  "mouse_pressed_body nx ny i s =
     (if \<not> btn_pressed (buttons s ! i) \<noteq> 0 \<and> point_in_button (buttons s ! i) nx ny
      then synthesize_key (btn_key (buttons s ! i)) 1 (set_pressed i 1 s)
      else s)"

definition mouse_released_body :: "nat \<Rightarrow> 'c vc_state \<Rightarrow> 'c vc_state" where
  "mouse_released_body i s =
     (if btn_pressed (buttons s ! i) \<noteq> 0
      then synthesize_key (btn_key (buttons s ! i)) 0 (set_pressed i 0 s)
      else s)"

text \<open>A null event pointer is \<open>None\<close>.\<close>

definition VirtualControls_HandleFingerEvent ::
  "'c::{ord,plus} SDL_TouchFingerEvent option \<Rightarrow> 'c vc_state \<Rightarrow> 'c vc_state" where
  "VirtualControls_HandleFingerEvent tf s =
     (case tf of
        None \<Rightarrow> s
      | Some ev \<Rightarrow>
          (let nx = tf_x ev; ny = tf_y ev in
           if tf_type ev = SDL_FINGERDOWN then for_buttons (finger_down_body nx ny) s
           else if tf_type ev = SDL_FINGERUP then for_buttons (finger_up_body nx ny) s
           else if tf_type ev = SDL_FINGERMOTION then for_buttons (finger_motion_body nx ny) s
           else s))"

text \<open>
  The mouse handler divides the pixel position by the stored window size in \<open>float\<close>;
  \<open>to_float\<close> is the conversion \<open>(float)\<close> from \<open>int\<close>.
\<close>

definition VirtualControls_HandleMouseEvent ::
  "(int \<Rightarrow> 'c::{ord,plus,inverse}) \<Rightarrow> SDL_MouseButtonEvent option \<Rightarrow> 'c vc_state \<Rightarrow> 'c vc_state" where
  "VirtualControls_HandleMouseEvent to_float mb s =
     (case mb of
        None \<Rightarrow> s
      | Some ev \<Rightarrow>
          (let nx = to_float (mb_x ev) / to_float (window_w s);
               ny = to_float (mb_y ev) / to_float (window_h s) in
           if mb_state ev = SDL_PRESSED then for_buttons (mouse_pressed_body nx ny) s
           else if mb_state ev = SDL_RELEASED then for_buttons mouse_released_body s
           else s))"

section \<open>Renderer resources\<close>

definition gl :: "gl_call list \<Rightarrow> 'c vc_state \<Rightarrow> 'c vc_state" where
  "gl cs s = s\<lparr>gl_calls := gl_calls s @ cs\<rparr>"

definition SDL_Log :: "string \<Rightarrow> 'c vc_state \<Rightarrow> 'c vc_state" where
  "SDL_Log line s = s\<lparr>sdl_log := sdl_log s @ [line]\<rparr>"

definition vc_create_shader :: "gl_driver \<Rightarrow> 'c vc_state \<Rightarrow> 'c vc_state" where
  "vc_create_shader drv s =
     (let vs = drv_vs drv;
          s = gl [GlCreateShader GL_VERTEX_SHADER, GlShaderSource vs, GlCompileShader vs,
                  GlGetShaderiv vs] s;
          s = (if drv_vs_status drv = 0
               then SDL_Log (''VC vertex shader error: '' @ drv_vs_info drv)
                      (gl [GlGetShaderInfoLog vs] s)
               else s);
          fs = drv_fs drv;
          s = gl [GlCreateShader GL_FRAGMENT_SHADER, GlShaderSource fs, GlCompileShader fs,
                  GlGetShaderiv fs] s;
          s = (if drv_fs_status drv = 0
               then SDL_Log (''VC fragment shader error: '' @ drv_fs_info drv)
                      (gl [GlGetShaderInfoLog fs] s)
               else s);
          s = (gl [GlCreateProgram] s)\<lparr>vc_prog := drv_prog drv\<rparr>;
          s = gl [GlAttachShader (vc_prog s) vs, GlAttachShader (vc_prog s) fs,
                  GlBindAttribLocation (vc_prog s) 0 ''aPos'',
                  GlBindAttribLocation (vc_prog s) 1 ''aColor'',
                  GlLinkProgram (vc_prog s), GlGetProgramiv (vc_prog s)] s;
          s = (if drv_link_status drv = 0
               then SDL_Log (''VC link error: '' @ drv_link_info drv)
                      (gl [GlGetProgramInfoLog (vc_prog s)] s)
               else s);
          s = gl [GlDeleteShader vs, GlDeleteShader fs] s;
          s = s\<lparr>vc_loc_pos := 0, vc_loc_col := 1\<rparr>
      in (gl [GlGenBuffers] s)\<lparr>vc_vbo := drv_vbo drv\<rparr>)"

text \<open>
  The part of \<open>VirtualControls_Draw\<close> after the lazy creation. The loop writes six vertices
  per button and advances \<open>vcount\<close> by six; the float contents of the vertices are not
  modelled, only the count that reaches \<open>glBufferData\<close> and \<open>glDrawArrays\<close>.
\<close>

definition draw_quads :: "gl_driver \<Rightarrow> 'c vc_state \<Rightarrow> 'c vc_state" where
  "draw_quads drv s =
     (let vcount = fold (\<lambda>i vcount. vcount + 6) [0..<nat (button_count s)] 0;
          depthTestEnabled = drv_depth_test drv;
          blendEnabled = drv_blend drv;
          s = gl [GlIsEnabled GL_DEPTH_TEST, GlIsEnabled GL_BLEND,
                  GlDisable GL_DEPTH_TEST, GlDepthMask False, GlEnable GL_BLEND, GlBlendFunc,
                  GlUseProgram (vc_prog s), GlBindBuffer (vc_vbo s), GlBufferData vcount,
                  GlEnableVertexAttribArray (vc_loc_pos s),
                  GlEnableVertexAttribArray (vc_loc_col s),
                  GlVertexAttribPointer (vc_loc_pos s) 2,
                  GlVertexAttribPointer (vc_loc_col s) 4,
                  GlDrawArrays vcount,
                  GlDisableVertexAttribArray (vc_loc_pos s),
                  GlDisableVertexAttribArray (vc_loc_col s),
                  GlBindBuffer 0, GlUseProgram 0] s;
          s = (if \<not> blendEnabled then gl [GlDisable GL_BLEND] s else s);
          s = (if depthTestEnabled then gl [GlEnable GL_DEPTH_TEST] s else s)
      in gl [GlDepthMask True] s)"

definition VirtualControls_Draw :: "gl_driver \<Rightarrow> 'c vc_state \<Rightarrow> 'c vc_state" where
  "VirtualControls_Draw drv s =
     (if button_count s = 0 then s
      else draw_quads drv (if \<not> vc_prog s \<noteq> 0 then vc_create_shader drv s else s))"


section \<open>Vocabulary of the properties\<close>

text \<open>The key-down and key-up events for a key, as the host's queue sees them.\<close>

definition key_down_event :: "SDL_Keycode \<Rightarrow> SDL_KeyboardEvent" where
  "key_down_event key =
     \<lparr>ev_type = SDL_KEYDOWN, ev_windowID = 0, ev_state = SDL_PRESSED, ev_repeat = 0,
      ev_sym = key, ev_mod = 0\<rparr>"

definition key_up_event :: "SDL_Keycode \<Rightarrow> SDL_KeyboardEvent" where
  "key_up_event key =
     \<lparr>ev_type = SDL_KEYUP, ev_windowID = 0, ev_state = SDL_RELEASED, ev_repeat = 0,
      ev_sym = key, ev_mod = 0\<rparr>"

text \<open>The registered buttons: the slots of the array below the count, in order.\<close>

definition registered :: "'c vc_state \<Rightarrow> 'c VC_Button list" where
  "registered s = take (nat (button_count s)) (buttons s)"

text \<open>
  The key events that the change of one button from \<open>b\<close> to \<open>b'\<close> calls for: a key-down
  when it goes from released to pressed, a key-up when it goes from pressed to released,
  nothing otherwise; and the same for a row of buttons, in order.
\<close>

definition transition_event :: "'c VC_Button \<Rightarrow> 'c VC_Button \<Rightarrow> SDL_KeyboardEvent list" where
  "transition_event b b' =
     (if btn_pressed b = 0 \<and> btn_pressed b' \<noteq> 0 then [key_down_event (btn_key b)]
      else if btn_pressed b \<noteq> 0 \<and> btn_pressed b' = 0 then [key_up_event (btn_key b)]
      else [])"

definition transition_events ::
  "'c VC_Button list \<Rightarrow> 'c VC_Button list \<Rightarrow> SDL_KeyboardEvent list" where
  "transition_events bs bs' = concat (map2 transition_event bs bs')"

definition same_but_pressed :: "'c VC_Button \<Rightarrow> 'c VC_Button \<Rightarrow> bool" where
  "same_but_pressed b b' \<longleftrightarrow> b'\<lparr>btn_pressed := btn_pressed b\<rparr> = b"

text \<open>
  A handler's step from \<open>s\<close> to \<open>s'\<close> mirrors the transitions when the events it
  pushed are those of the transitions of the registered buttons, and each registered button
  differs from its old self in the pressed flag at most.
\<close>

definition mirrors :: "'c vc_state \<Rightarrow> 'c vc_state \<Rightarrow> bool" where
  "mirrors s s' \<longleftrightarrow>
     sdl_events s' = sdl_events s @ transition_events (registered s) (registered s')
     \<and> list_all2 same_but_pressed (registered s) (registered s')"

text \<open>
  The shape the five loop bodies share: where the test \<open>c\<close> holds of button \<open>i\<close>, store
  \<open>v\<close> in its pressed flag and synthesize the key event for \<open>v\<close>.
\<close>

definition flip_where ::
  "('c VC_Button \<Rightarrow> bool) \<Rightarrow> int \<Rightarrow> nat \<Rightarrow> 'c vc_state \<Rightarrow> 'c vc_state" where
  "flip_where c v i s =
     (if c (buttons s ! i)
      then synthesize_key (btn_key (buttons s ! i)) v (set_pressed i v s)
      else s)"

definition flipped :: "('c VC_Button \<Rightarrow> bool) \<Rightarrow> int \<Rightarrow> 'c VC_Button \<Rightarrow> 'c VC_Button" where
  "flipped c v b = (if c b then b\<lparr>btn_pressed := v\<rparr> else b)"

definition key_event :: "SDL_Keycode \<Rightarrow> int \<Rightarrow> SDL_KeyboardEvent" where
  "key_event key v = (if v \<noteq> 0 then key_down_event key else key_up_event key)"

text \<open>
  The lines that \<open>vc_create_shader\<close> logs for a driver: one for each stage (vertex shader,
  fragment shader, link) whose status the driver reports as zero.
\<close>

definition shader_errors :: "gl_driver \<Rightarrow> string list" where
  "shader_errors drv =
     (if drv_vs_status drv = 0 then [''VC vertex shader error: '' @ drv_vs_info drv] else [])
     @ (if drv_fs_status drv = 0 then [''VC fragment shader error: '' @ drv_fs_info drv] else [])
     @ (if drv_link_status drv = 0 then [''VC link error: '' @ drv_link_info drv] else [])"

text \<open>How often the module has asked for a program object so far.\<close>

definition creations :: "'c vc_state \<Rightarrow> nat" where
  "creations s = length (filter (\<lambda>c. c = GlCreateProgram) (gl_calls s))"

section \<open>Example states and events\<close>

text \<open>The overlay after \<open>VirtualControls_Init(800, 600)\<close>, with rational coordinates.\<close>

definition demo_state :: "rat vc_state" where
  "demo_state = snd (VirtualControls_Init 800 600 vc_static_init)"

text \<open>A finger event of the given type at (0.10, 0.80), inside the button for "left".\<close>

definition finger_at_left :: "32 word \<Rightarrow> rat SDL_TouchFingerEvent" where
  "finger_at_left ty = \<lparr>tf_type = ty, tf_x = 10 / 100, tf_y = 80 / 100\<rparr>"

text \<open>A finger event of the given type at (0.50, 0.50), inside no button.\<close>

definition finger_at_centre :: "32 word \<Rightarrow> rat SDL_TouchFingerEvent" where
  "finger_at_centre ty = \<lparr>tf_type = ty, tf_x = 50 / 100, tf_y = 50 / 100\<rparr>"

text \<open>The overlay with "left" held down.\<close>

definition left_held_state :: "rat vc_state" where
  "left_held_state =
     VirtualControls_HandleFingerEvent (Some (finger_at_left SDL_FINGERDOWN)) demo_state"



text \<open>A mouse event with the given button state at pixel (700, 10), inside no button.\<close>

definition mouse_at_corner :: "8 word \<Rightarrow> SDL_MouseButtonEvent" where
  "mouse_at_corner st = \<lparr>mb_state = st, mb_x = 700, mb_y = 10\<rparr>"

text \<open>The array filled up: eleven more buttons after the five of the layout.\<close>

definition full_state :: "rat vc_state" where
  "full_state =
     ((\<lambda>s. snd (vc_add_button (1 / 2) (1 / 2) (1 / 10) (1 / 10) SDLK_UP s)) ^^ 11) demo_state"

text \<open>
  A driver whose shaders compile and link, and one whose link step fails; both hand out
  non-zero handles, as a driver does for every object it manages to create.
\<close>

definition driver_ok :: gl_driver where
  "driver_ok = \<lparr>drv_vs = 1, drv_vs_status = 1, drv_vs_info = [],
     drv_fs = 2, drv_fs_status = 1, drv_fs_info = [],
     drv_prog = 3, drv_link_status = 1, drv_link_info = [],
     drv_vbo = 1, drv_depth_test = True, drv_blend = False\<rparr>"

definition driver_link_fails :: gl_driver where
  "driver_link_fails = driver_ok\<lparr>drv_link_status := 0, drv_link_info := ''link failed''\<rparr>"


section \<open>Properties\<close>

subsection \<open>The loops over the registered buttons\<close>

text \<open>No loop body writes \<open>button_count\<close>, so the bound of each loop is fixed while it runs.\<close>

lemma loop_bodies_keep_count:
  "button_count (finger_down_body nx ny i s) = button_count s"
  "button_count (finger_up_body nx ny i s) = button_count s"
  "button_count (finger_motion_body nx ny i s) = button_count s"
  "button_count (mouse_pressed_body nx ny i s) = button_count s"
  "button_count (mouse_released_body i s) = button_count s"
  by (simp_all add: finger_down_body_def finger_up_body_def finger_motion_body_def
      mouse_pressed_body_def mouse_released_body_def synthesize_key_def set_pressed_def)

lemma key_event_simps:
  "key_event key 1 = key_down_event key" "key_event key 0 = key_up_event key"
  by (simp_all add: key_event_def)

lemma flip_where_step:
  "flip_where c v n t =
     t\<lparr>buttons := (buttons t)[n := flipped c v (buttons t ! n)],
       sdl_events := sdl_events t @ map (\<lambda>b. key_event (btn_key b) v) (filter c [buttons t ! n])\<rparr>"
  by (simp add: flip_where_def synthesize_key_def set_pressed_def key_event_def flipped_def
      key_down_event_def key_up_event_def)

lemma fold_flip_where:
  "n \<le> length (buttons s) \<Longrightarrow>
   fold (flip_where c v) [0..<n] s =
     s\<lparr>buttons := map (flipped c v) (take n (buttons s)) @ drop n (buttons s),
       sdl_events := sdl_events s @ map (\<lambda>b. key_event (btn_key b) v) (filter c (take n (buttons s)))\<rparr>"
proof (induction n)
  case 0
  then show ?case by simp
next
  case (Suc n)
  let ?bs = "buttons s"
  let ?t = "s\<lparr>buttons := map (flipped c v) (take n ?bs) @ drop n ?bs,
       sdl_events := sdl_events s @ map (\<lambda>b. key_event (btn_key b) v) (filter c (take n ?bs))\<rparr>"
  from Suc have n: "n < length ?bs" by simp
  have nth: "buttons ?t ! n = ?bs ! n"
    using n by (simp add: nth_append)
  have upd: "(buttons ?t)[n := b] = map (flipped c v) (take n ?bs) @ b # drop (Suc n) ?bs" for b
    using n by (simp add: list_update_append upd_conv_take_nth_drop)
  have "fold (flip_where c v) [0..<Suc n] s = flip_where c v n ?t"
    using Suc.IH n by simp
  also have "\<dots> = ?t\<lparr>buttons := (buttons ?t)[n := flipped c v (?bs ! n)],
       sdl_events := sdl_events ?t @ map (\<lambda>b. key_event (btn_key b) v) (filter c [?bs ! n])\<rparr>"
    by (simp only: flip_where_step nth)
  also have "\<dots> = s\<lparr>buttons := map (flipped c v) (take (Suc n) ?bs) @ drop (Suc n) ?bs,
       sdl_events := sdl_events s @ map (\<lambda>b. key_event (btn_key b) v) (filter c (take (Suc n) ?bs))\<rparr>"
    unfolding upd using n by (simp add: take_Suc_conv_app_nth)
  finally show ?case .
qed

lemma count_le_length:
  "vc_inv s \<Longrightarrow> nat (button_count s) \<le> length (buttons s)"
  unfolding vc_inv_def by linarith

lemma for_buttons_flip_where:
  assumes "vc_inv s"
  shows "for_buttons (flip_where c v) s =
     s\<lparr>buttons := map (flipped c v) (registered s) @ drop (nat (button_count s)) (buttons s),
       sdl_events := sdl_events s @ map (\<lambda>b. key_event (btn_key b) v) (filter c (registered s))\<rparr>"
proof -
  have "nat (button_count s) \<le> length (buttons s)"
    using assms by (rule count_le_length)
  then show ?thesis
    unfolding for_buttons_def registered_def by (rule fold_flip_where)
qed

lemma finger_down_body_flip:
  "finger_down_body nx ny = flip_where (\<lambda>b. btn_pressed b = 0 \<and> point_in_button b nx ny) 1"
  by (intro ext) (simp add: finger_down_body_def flip_where_def)

lemma finger_up_body_flip:
  "finger_up_body nx ny = flip_where (\<lambda>b. btn_pressed b \<noteq> 0 \<and> point_in_button b nx ny) 0"
  by (intro ext) (simp add: finger_up_body_def flip_where_def)

lemma finger_motion_body_flip:
  "finger_motion_body nx ny =
     flip_where (\<lambda>b. btn_pressed b \<noteq> 0 \<and> \<not> point_in_button b nx ny) 0"
  by (intro ext) (simp add: finger_motion_body_def flip_where_def)

lemma mouse_pressed_body_flip:
  "mouse_pressed_body nx ny = flip_where (\<lambda>b. btn_pressed b = 0 \<and> point_in_button b nx ny) 1"
  by (intro ext) (simp add: mouse_pressed_body_def flip_where_def)

lemma mouse_released_body_flip:
  "mouse_released_body = flip_where (\<lambda>b. btn_pressed b \<noteq> 0) 0"
  by (intro ext) (simp add: mouse_released_body_def flip_where_def)

lemma registered_after_loop:
  assumes "vc_inv s"
  shows "registered (for_buttons (flip_where c v) s) = map (flipped c v) (registered s)"
proof -
  have "length (registered s) = nat (button_count s)"
    using count_le_length [OF assms] by (simp add: registered_def)
  then show ?thesis
    by (simp add: for_buttons_flip_where [OF assms] registered_def)
qed

lemma sdl_constants_distinct:
  "SDL_FINGERUP \<noteq> SDL_FINGERDOWN" "SDL_FINGERMOTION \<noteq> SDL_FINGERDOWN"
  "SDL_FINGERMOTION \<noteq> SDL_FINGERUP" "SDL_RELEASED \<noteq> SDL_PRESSED"
  by (simp_all add: SDL_FINGERUP_def SDL_FINGERDOWN_def SDL_FINGERMOTION_def
      SDL_RELEASED_def SDL_PRESSED_def)

subsection \<open>Mouse release\<close>

text \<open>
  Claim C4. For every state of the button set, a mouse event whose state is
  \<open>SDL_RELEASED\<close> releases every registered button that is pressed and pushes exactly one
  key-up for each of them, in index order, whatever the position of the event (neither the
  event's coordinates nor the window size appear on the right-hand side); a button that was
  already released keeps all its fields and gets no event; nothing else in the state changes.
  Afterwards no registered button is pressed.
\<close>

theorem mouse_release_all:
  assumes "vc_inv s" and "mb_state ev = SDL_RELEASED"
  shows "VirtualControls_HandleMouseEvent to_float (Some ev) s =
     s\<lparr>buttons := map (\<lambda>b. if btn_pressed b \<noteq> 0 then b\<lparr>btn_pressed := 0\<rparr> else b) (registered s)
                   @ drop (nat (button_count s)) (buttons s),
       sdl_events := sdl_events s
                   @ map (\<lambda>b. key_up_event (btn_key b)) (filter (\<lambda>b. btn_pressed b \<noteq> 0) (registered s))\<rparr>
   \<and> (\<forall>b \<in> set (registered (VirtualControls_HandleMouseEvent to_float (Some ev) s)).
         btn_pressed b = 0)"
proof -
  have loop: "VirtualControls_HandleMouseEvent to_float (Some ev) s = for_buttons mouse_released_body s"
    using assms(2) by (simp add: VirtualControls_HandleMouseEvent_def sdl_constants_distinct Let_def)
  have "registered (for_buttons mouse_released_body s)
      = map (flipped (\<lambda>b. btn_pressed b \<noteq> 0) 0) (registered s)"
    unfolding mouse_released_body_flip using assms(1) by (rule registered_after_loop)
  then have all: "\<forall>b \<in> set (registered (for_buttons mouse_released_body s)). btn_pressed b = 0"
    by (auto simp: flipped_def)
  have eq: "for_buttons mouse_released_body s =
     s\<lparr>buttons := map (\<lambda>b. if btn_pressed b \<noteq> 0 then b\<lparr>btn_pressed := 0\<rparr> else b) (registered s)
                   @ drop (nat (button_count s)) (buttons s),
       sdl_events := sdl_events s
                   @ map (\<lambda>b. key_up_event (btn_key b)) (filter (\<lambda>b. btn_pressed b \<noteq> 0) (registered s))\<rparr>"
    by (simp add: mouse_released_body_flip for_buttons_flip_where [OF assms(1)] flipped_def
        key_event_simps cong: map_cong)
  from eq all show ?thesis
    unfolding loop by (rule conjI)
qed

theorem mouse_release_all_witness:
  "vc_inv left_held_state \<and> mb_state (mouse_at_corner SDL_RELEASED) = SDL_RELEASED \<and>
   sdl_events (VirtualControls_HandleMouseEvent of_int (Some (mouse_at_corner SDL_RELEASED))
       left_held_state)
     = [key_down_event SDLK_LEFT, key_up_event SDLK_LEFT] \<and>
   buttons (VirtualControls_HandleMouseEvent of_int (Some (mouse_at_corner SDL_RELEASED))
       left_held_state)
     = buttons demo_state"
proof -
  have inv: "vc_inv left_held_state" by code_simp
  have st: "mb_state (mouse_at_corner SDL_RELEASED) = SDL_RELEASED"
    by (simp add: mouse_at_corner_def)
  note eq = mouse_release_all [OF inv st, of of_int, THEN conjunct1]
  have ev: "sdl_events left_held_state
       @ map (\<lambda>b. key_up_event (btn_key b))
           (filter (\<lambda>b. btn_pressed b \<noteq> 0) (registered left_held_state))
     = [key_down_event SDLK_LEFT, key_up_event SDLK_LEFT]"
    by code_simp
  have bs: "map (\<lambda>b. if btn_pressed b \<noteq> 0 then b\<lparr>btn_pressed := 0\<rparr> else b)
         (registered left_held_state)
       @ drop (nat (button_count left_held_state)) (buttons left_held_state)
     = buttons demo_state"
    by code_simp
  show ?thesis
    unfolding eq using inv st ev bs by simp
qed

subsection \<open>A test that holds of one registered button only, or of none\<close>

lemma filter_unique_index:
  assumes "i < length xs" and "c (xs ! i)" and "\<forall>j<length xs. j \<noteq> i \<longrightarrow> \<not> c (xs ! j)"
  shows "filter c xs = [xs ! i]"
proof -
  have split: "xs = take i xs @ xs ! i # drop (Suc i) xs"
    using assms(1) by (simp add: id_take_nth_drop)
  have before: "filter c (take i xs) = []"
    using assms(1,3) by (auto simp: filter_empty_conv in_set_conv_nth)
  have "\<not> c (drop (Suc i) xs ! k)" if "k < length xs - Suc i" for k
    using that assms(1,3) by simp
  then have after: "filter c (drop (Suc i) xs) = []"
    by (auto simp: filter_empty_conv in_set_conv_nth)
  have "filter c xs = filter c (take i xs @ xs ! i # drop (Suc i) xs)"
    using split by simp
  then show ?thesis
    using before after assms(2) by simp
qed

lemma map_flipped_unique_index:
  assumes "i < length xs" and "c (xs ! i)" and "\<forall>j<length xs. j \<noteq> i \<longrightarrow> \<not> c (xs ! j)"
  shows "map (flipped c v) xs = xs[i := (xs ! i)\<lparr>btn_pressed := v\<rparr>]"
  using assms by (intro nth_equalityI) (auto simp: nth_list_update flipped_def)

lemma filter_no_index:
  assumes "\<forall>j<length xs. \<not> c (xs ! j)"
  shows "filter c xs = []" and "map (flipped c v) xs = xs"
proof -
  from assms have none: "\<forall>x \<in> set xs. \<not> c x"
    by (auto simp: in_set_conv_nth)
  then show "filter c xs = []"
    by (simp add: filter_empty_conv)
  from none show "map (flipped c v) xs = xs"
    by (simp add: flipped_def map_idI)
qed

lemma registered_nth:
  "j < nat (button_count s) \<Longrightarrow> registered s ! j = buttons s ! j"
  by (simp add: registered_def)

lemma length_registered:
  "vc_inv s \<Longrightarrow> length (registered s) = nat (button_count s)"
  using count_le_length [of s] by (simp add: registered_def)

lemma for_buttons_unique:
  assumes inv: "vc_inv s" and i: "i < nat (button_count s)" and ci: "c (buttons s ! i)"
    and others: "\<forall>j<nat (button_count s). j \<noteq> i \<longrightarrow> \<not> c (buttons s ! j)"
  shows "for_buttons (flip_where c v) s =
     s\<lparr>buttons := (buttons s)[i := (buttons s ! i)\<lparr>btn_pressed := v\<rparr>],
       sdl_events := sdl_events s @ [key_event (btn_key (buttons s ! i)) v]\<rparr>"
proof -
  let ?n = "nat (button_count s)"
  let ?b = "(buttons s ! i)\<lparr>btn_pressed := v\<rparr>"
  have len: "length (registered s) = ?n"
    using inv by (rule length_registered)
  have i': "i < length (registered s)" and ci': "c (registered s ! i)"
    and others': "\<forall>j<length (registered s). j \<noteq> i \<longrightarrow> \<not> c (registered s ! j)"
    using i ci others by (simp_all add: len registered_nth)
  have f: "filter c (registered s) = [buttons s ! i]"
    using filter_unique_index [OF i' ci' others'] i by (simp add: registered_nth)
  have "map (flipped c v) (registered s) = (registered s)[i := ?b]"
    using map_flipped_unique_index [OF i' ci' others'] i by (simp add: registered_nth)
  also have "\<dots> = take ?n ((buttons s)[i := ?b])"
    using i by (simp add: registered_def take_update_swap)
  finally have "map (flipped c v) (registered s) @ drop ?n (buttons s) = (buttons s)[i := ?b]"
    using i by (metis append_take_drop_id drop_update_cancel)
  then show ?thesis
    by (simp add: for_buttons_flip_where [OF inv] f)
qed

lemma for_buttons_none:
  assumes inv: "vc_inv s" and none: "\<forall>j<nat (button_count s). \<not> c (buttons s ! j)"
  shows "for_buttons (flip_where c v) s = s"
proof -
  have "\<forall>j<length (registered s). \<not> c (registered s ! j)"
    using none by (simp add: length_registered [OF inv] registered_nth)
  then have "filter c (registered s) = []" and "map (flipped c v) (registered s) = registered s"
    by (rule filter_no_index)+
  then show ?thesis
    by (simp add: for_buttons_flip_where [OF inv] registered_def)
qed

lemma point_in_button_pressed [simp]:
  "point_in_button (b\<lparr>btn_pressed := v\<rparr>) nx ny = point_in_button b nx ny"
  by (simp add: point_in_button_def)

lemma finger_down_loop:
  "tf_type ev = SDL_FINGERDOWN \<Longrightarrow>
   VirtualControls_HandleFingerEvent (Some ev) s
     = for_buttons (flip_where (\<lambda>b. btn_pressed b = 0 \<and> point_in_button b (tf_x ev) (tf_y ev)) 1) s"
  by (simp add: VirtualControls_HandleFingerEvent_def finger_down_body_flip Let_def)

lemma finger_up_loop:
  "tf_type ev = SDL_FINGERUP \<Longrightarrow>
   VirtualControls_HandleFingerEvent (Some ev) s
     = for_buttons (flip_where (\<lambda>b. btn_pressed b \<noteq> 0 \<and> point_in_button b (tf_x ev) (tf_y ev)) 0) s"
  by (simp add: VirtualControls_HandleFingerEvent_def finger_up_body_flip Let_def
      sdl_constants_distinct)

lemma finger_motion_loop:
  "tf_type ev = SDL_FINGERMOTION \<Longrightarrow>
   VirtualControls_HandleFingerEvent (Some ev) s
     = for_buttons (flip_where (\<lambda>b. btn_pressed b \<noteq> 0 \<and> \<not> point_in_button b (tf_x ev) (tf_y ev)) 0) s"
  by (simp add: VirtualControls_HandleFingerEvent_def finger_motion_body_flip Let_def
      sdl_constants_distinct)

lemma vc_inv_frame:
  "vc_inv s \<Longrightarrow> vc_inv (s\<lparr>buttons := (buttons s)[i := b], sdl_events := es\<rparr>)"
  by (simp add: vc_inv_def)

subsection \<open>The layout of init\<close>

text \<open>
  The five rectangles that \<open>VirtualControls_Init\<close> registers do not overlap: after init a
  position is under one button at most.
\<close>

lemma registered_demo_state:
  "registered demo_state =
     [\<lparr>btn_x = 5 / 100, btn_y = 75 / 100, btn_w = 12 / 100, btn_h = 18 / 100,
       btn_key = SDLK_LEFT, btn_id = 0, btn_pressed = 0\<rparr>,
      \<lparr>btn_x = 22 / 100, btn_y = 75 / 100, btn_w = 12 / 100, btn_h = 18 / 100,
       btn_key = SDLK_DOWN, btn_id = 1, btn_pressed = 0\<rparr>,
      \<lparr>btn_x = 22 / 100, btn_y = 55 / 100, btn_w = 12 / 100, btn_h = 18 / 100,
       btn_key = SDLK_UP, btn_id = 2, btn_pressed = 0\<rparr>,
      \<lparr>btn_x = 39 / 100, btn_y = 75 / 100, btn_w = 12 / 100, btn_h = 18 / 100,
       btn_key = SDLK_RIGHT, btn_id = 3, btn_pressed = 0\<rparr>,
      \<lparr>btn_x = 80 / 100, btn_y = 75 / 100, btn_w = 15 / 100, btn_h = 18 / 100,
       btn_key = SDLK_RETURN, btn_id = 4, btn_pressed = 0\<rparr>]"
  by code_simp

lemma init_layout_disjoint:
  assumes "i < length (registered demo_state)" and "j < length (registered demo_state)"
    and "point_in_button (registered demo_state ! i) px py"
    and "point_in_button (registered demo_state ! j) px py"
  shows "i = j"
proof -
  have "i \<in> {0, 1, 2, 3, 4}" and "j \<in> {0, 1, 2, 3, 4}"
    using assms(1,2) unfolding registered_demo_state by auto
  then show ?thesis
    using assms(3,4) unfolding registered_demo_state
    by (auto simp: point_in_button_def)
qed

subsection \<open>Finger down: pressing, and pressing again\<close>

text \<open>
  Claim C6. Take a finger-down event whose position is contained in the rectangle of exactly
  one released registered button, the one at index \<open>i\<close> (no other registered button is
  both released and under the position). Handling it pushes exactly one event, the key-down
  for that button's key, and sets that button's pressed flag; nothing else changes. Handling
  the same event a second time, while the button is still pressed, returns the state as it
  is: no further key-down, no change.
\<close>

theorem finger_down_press_idempotent:
  assumes inv: "vc_inv s"
    and down: "tf_type ev = SDL_FINGERDOWN"
    and i: "i < nat (button_count s)"
    and hit: "btn_pressed (buttons s ! i) = 0 \<and> point_in_button (buttons s ! i) (tf_x ev) (tf_y ev)"
    and only: "\<forall>j<nat (button_count s). j \<noteq> i \<longrightarrow>
        \<not> (btn_pressed (buttons s ! j) = 0 \<and> point_in_button (buttons s ! j) (tf_x ev) (tf_y ev))"
  shows "VirtualControls_HandleFingerEvent (Some ev) s =
       s\<lparr>buttons := (buttons s)[i := (buttons s ! i)\<lparr>btn_pressed := 1\<rparr>],
         sdl_events := sdl_events s @ [key_down_event (btn_key (buttons s ! i))]\<rparr>
     \<and> VirtualControls_HandleFingerEvent (Some ev) (VirtualControls_HandleFingerEvent (Some ev) s)
       = VirtualControls_HandleFingerEvent (Some ev) s"
proof -
  let ?c = "\<lambda>b. btn_pressed b = 0 \<and> point_in_button b (tf_x ev) (tf_y ev)"
  let ?s1 = "s\<lparr>buttons := (buttons s)[i := (buttons s ! i)\<lparr>btn_pressed := 1\<rparr>],
         sdl_events := sdl_events s @ [key_down_event (btn_key (buttons s ! i))]\<rparr>"
  have first: "VirtualControls_HandleFingerEvent (Some ev) s = ?s1"
    unfolding finger_down_loop [OF down]
    using for_buttons_unique [OF inv i, of ?c 1] hit only by (simp add: key_event_simps)
  have inv1: "vc_inv ?s1"
    using inv by (rule vc_inv_frame)
  have ilen: "i < length (buttons s)"
    using i count_le_length [OF inv] by simp
  have "\<not> ?c (buttons ?s1 ! j)" if "j < nat (button_count ?s1)" for j
    using that only ilen by (cases "j = i") simp_all
  then have "for_buttons (flip_where ?c 1) ?s1 = ?s1"
    using inv1 by (intro for_buttons_none) blast+
  then have "VirtualControls_HandleFingerEvent (Some ev) ?s1 = ?s1"
    unfolding finger_down_loop [OF down] .
  with first show ?thesis by simp
qed

theorem finger_down_press_idempotent_witness:
  "vc_inv demo_state
   \<and> tf_type (finger_at_left SDL_FINGERDOWN) = SDL_FINGERDOWN
   \<and> 0 < nat (button_count demo_state)
   \<and> (btn_pressed (buttons demo_state ! 0) = 0
      \<and> point_in_button (buttons demo_state ! 0)
           (tf_x (finger_at_left SDL_FINGERDOWN)) (tf_y (finger_at_left SDL_FINGERDOWN)))
   \<and> filter (\<lambda>j. btn_pressed (buttons demo_state ! j) = 0
           \<and> point_in_button (buttons demo_state ! j)
                (tf_x (finger_at_left SDL_FINGERDOWN)) (tf_y (finger_at_left SDL_FINGERDOWN)))
        [0..<nat (button_count demo_state)] = [0]
   \<and> sdl_events (VirtualControls_HandleFingerEvent (Some (finger_at_left SDL_FINGERDOWN)) demo_state)
       = [key_down_event SDLK_LEFT]
   \<and> VirtualControls_HandleFingerEvent (Some (finger_at_left SDL_FINGERDOWN))
         (VirtualControls_HandleFingerEvent (Some (finger_at_left SDL_FINGERDOWN)) demo_state)
       = VirtualControls_HandleFingerEvent (Some (finger_at_left SDL_FINGERDOWN)) demo_state"
proof -
  let ?ev = "finger_at_left SDL_FINGERDOWN"
  have inv: "vc_inv demo_state" by code_simp
  have down: "tf_type ?ev = SDL_FINGERDOWN" by (simp add: finger_at_left_def)
  have n: "nat (button_count demo_state) = 5" by code_simp
  have i: "0 < nat (button_count demo_state)" by (simp add: n)
  have hit: "btn_pressed (buttons demo_state ! 0) = 0
      \<and> point_in_button (buttons demo_state ! 0) (tf_x ?ev) (tf_y ?ev)"
    by code_simp
  have "\<forall>j \<in> set [0..<5]. j \<noteq> 0 \<longrightarrow>
        \<not> (btn_pressed (buttons demo_state ! j) = 0
           \<and> point_in_button (buttons demo_state ! j) (tf_x ?ev) (tf_y ?ev))"
    by code_simp
  then have only: "\<forall>j<nat (button_count demo_state). j \<noteq> 0 \<longrightarrow>
        \<not> (btn_pressed (buttons demo_state ! j) = 0
           \<and> point_in_button (buttons demo_state ! j) (tf_x ?ev) (tf_y ?ev))"
    by (simp add: n)
  have sole: "filter (\<lambda>j. btn_pressed (buttons demo_state ! j) = 0
           \<and> point_in_button (buttons demo_state ! j) (tf_x ?ev) (tf_y ?ev))
        [0..<nat (button_count demo_state)] = [0]"
    by code_simp
  note press = finger_down_press_idempotent [OF inv down i hit only]
  have "sdl_events demo_state @ [key_down_event (btn_key (buttons demo_state ! 0))]
      = [key_down_event SDLK_LEFT]"
    by code_simp
  then have ev: "sdl_events (VirtualControls_HandleFingerEvent (Some ?ev) demo_state)
      = [key_down_event SDLK_LEFT]"
    by (simp add: press [THEN conjunct1])
  show ?thesis
    using inv down i hit sole ev press [THEN conjunct2] by blast
qed

subsection \<open>Finger down, then up, at one position\<close>




subsection \<open>Finger motion\<close>

text \<open>
  Claim C7. A finger-motion event at \<open>(nx, ny)\<close> releases exactly the registered buttons
  that are pressed and whose rectangle does not contain \<open>(nx, ny)\<close>, and pushes one key-up
  for each of them, in index order, and no other event. Every other registered button keeps
  all its fields: a pressed button whose rectangle contains the position stays pressed, and a
  released button stays released, so motion never presses a button.
\<close>

theorem finger_motion_releases_outside:
  assumes inv: "vc_inv s" and motion: "tf_type ev = SDL_FINGERMOTION"
  shows "VirtualControls_HandleFingerEvent (Some ev) s =
       s\<lparr>buttons :=
           map (\<lambda>b. if btn_pressed b \<noteq> 0 \<and> \<not> point_in_button b (tf_x ev) (tf_y ev)
                    then b\<lparr>btn_pressed := 0\<rparr> else b) (registered s)
           @ drop (nat (button_count s)) (buttons s),
         sdl_events := sdl_events s @
           map (\<lambda>b. key_up_event (btn_key b))
             (filter (\<lambda>b. btn_pressed b \<noteq> 0 \<and> \<not> point_in_button b (tf_x ev) (tf_y ev))
                (registered s))\<rparr>
     \<and> (\<forall>i<nat (button_count s).
          buttons (VirtualControls_HandleFingerEvent (Some ev) s) ! i =
            (if btn_pressed (buttons s ! i) \<noteq> 0
                \<and> \<not> point_in_button (buttons s ! i) (tf_x ev) (tf_y ev)
             then (buttons s ! i)\<lparr>btn_pressed := 0\<rparr> else buttons s ! i))
     \<and> (\<forall>i<nat (button_count s).
          btn_pressed (buttons s ! i) = 0 \<longrightarrow>
          btn_pressed (buttons (VirtualControls_HandleFingerEvent (Some ev) s) ! i) = 0)"
proof -
  let ?c = "\<lambda>b. btn_pressed b \<noteq> 0 \<and> \<not> point_in_button b (tf_x ev) (tf_y ev)"
  let ?s' = "for_buttons (flip_where ?c 0) s"
  have eq: "?s' =
       s\<lparr>buttons := map (\<lambda>b. if ?c b then b\<lparr>btn_pressed := 0\<rparr> else b) (registered s)
           @ drop (nat (button_count s)) (buttons s),
         sdl_events := sdl_events s @ map (\<lambda>b. key_up_event (btn_key b)) (filter ?c (registered s))\<rparr>"
    by (simp add: for_buttons_flip_where [OF inv] flipped_def key_event_simps cong: map_cong)
  have len: "length (registered s) = nat (button_count s)"
    using inv by (rule length_registered)
  have nth: "buttons ?s' ! i = (if ?c (buttons s ! i) then (buttons s ! i)\<lparr>btn_pressed := 0\<rparr>
      else buttons s ! i)" if "i < nat (button_count s)" for i
    using that by (simp add: eq nth_append len registered_nth)
  have keep: "btn_pressed (buttons ?s' ! i) = 0"
    if "i < nat (button_count s)" and "btn_pressed (buttons s ! i) = 0" for i
    using that by (simp add: nth)
  show ?thesis
    unfolding finger_motion_loop [OF motion] using eq nth keep by blast
qed

theorem finger_motion_releases_outside_witness:
  "vc_inv left_held_state
   \<and> tf_type (finger_at_centre SDL_FINGERMOTION) = SDL_FINGERMOTION
   \<and> sdl_events (VirtualControls_HandleFingerEvent (Some (finger_at_centre SDL_FINGERMOTION))
         left_held_state)
       = [key_down_event SDLK_LEFT, key_up_event SDLK_LEFT]
   \<and> buttons (VirtualControls_HandleFingerEvent (Some (finger_at_centre SDL_FINGERMOTION))
         left_held_state)
       = buttons demo_state"
proof -
  let ?ev = "finger_at_centre SDL_FINGERMOTION"
  have inv: "vc_inv left_held_state" by code_simp
  have motion: "tf_type ?ev = SDL_FINGERMOTION" by (simp add: finger_at_centre_def)
  note eq = finger_motion_releases_outside [OF inv motion, THEN conjunct1]
  have ev: "sdl_events left_held_state @
           map (\<lambda>b. key_up_event (btn_key b))
             (filter (\<lambda>b. btn_pressed b \<noteq> 0 \<and> \<not> point_in_button b (tf_x ?ev) (tf_y ?ev))
                (registered left_held_state))
      = [key_down_event SDLK_LEFT, key_up_event SDLK_LEFT]"
    by code_simp
  have bs: "map (\<lambda>b. if btn_pressed b \<noteq> 0 \<and> \<not> point_in_button b (tf_x ?ev) (tf_y ?ev)
                    then b\<lparr>btn_pressed := 0\<rparr> else b) (registered left_held_state)
           @ drop (nat (button_count left_held_state)) (buttons left_held_state)
      = buttons demo_state"
    by code_simp
  show ?thesis
    unfolding eq using inv motion ev bs by simp
qed

subsection \<open>Key events and transitions\<close>

lemma transition_events_Cons:
  "transition_events (b # bs) (b' # bs') = transition_event b b' @ transition_events bs bs'"
  by (simp add: transition_events_def)

lemma transition_events_flipped:
  assumes "\<forall>b. c b \<longrightarrow> (btn_pressed b = 0) = (v \<noteq> 0)"
  shows "transition_events bs (map (flipped c v) bs)
     = map (\<lambda>b. key_event (btn_key b) v) (filter c bs)"
proof (induction bs)
  case Nil
  show ?case by (simp add: transition_events_def)
next
  case (Cons b bs)
  have "transition_event b (flipped c v b) = (if c b then [key_event (btn_key b) v] else [])"
    using assms by (auto simp: transition_event_def flipped_def key_event_def)
  with Cons.IH show ?case
    by (simp add: transition_events_Cons)
qed

lemma transition_events_same: "transition_events bs bs = []"
  by (induction bs) (simp_all add: transition_events_def transition_event_def)

lemma same_but_pressed_flipped: "list_all2 same_but_pressed bs (map (flipped c v) bs)"
  by (simp add: list_all2_map2 list_all2_same same_but_pressed_def flipped_def)

lemma same_but_pressed_same: "list_all2 same_but_pressed bs bs"
  by (simp add: list_all2_same same_but_pressed_def)

lemma mirrors_loop:
  assumes inv: "vc_inv s" and c: "\<forall>b. c b \<longrightarrow> (btn_pressed b = 0) = (v \<noteq> 0)"
  shows "mirrors s (for_buttons (flip_where c v) s)"
  unfolding mirrors_def registered_after_loop [OF inv]
  by (simp add: for_buttons_flip_where [OF inv] transition_events_flipped [OF c]
      same_but_pressed_flipped)

lemma mirrors_idle: "mirrors s s"
  by (simp add: mirrors_def transition_events_same same_but_pressed_same)

lemma mirrors_finger:
  assumes inv: "vc_inv s"
  shows "mirrors s (VirtualControls_HandleFingerEvent tf s)"
proof (cases tf)
  case None
  then show ?thesis
    by (simp add: VirtualControls_HandleFingerEvent_def mirrors_idle)
next
  case (Some ev)
  consider "tf_type ev = SDL_FINGERDOWN" | "tf_type ev = SDL_FINGERUP"
    | "tf_type ev = SDL_FINGERMOTION"
    | "tf_type ev \<noteq> SDL_FINGERDOWN" "tf_type ev \<noteq> SDL_FINGERUP" "tf_type ev \<noteq> SDL_FINGERMOTION"
    by blast
  then show ?thesis
  proof cases
    case 1
    show ?thesis
      unfolding Some finger_down_loop [OF 1] using inv by (rule mirrors_loop) simp
  next
    case 2
    show ?thesis
      unfolding Some finger_up_loop [OF 2] using inv by (rule mirrors_loop) simp
  next
    case 3
    show ?thesis
      unfolding Some finger_motion_loop [OF 3] using inv by (rule mirrors_loop) simp
  next
    case 4
    then show ?thesis
      by (simp add: Some VirtualControls_HandleFingerEvent_def Let_def mirrors_idle)
  qed
qed

lemma mirrors_mouse:
  assumes inv: "vc_inv s"
  shows "mirrors s (VirtualControls_HandleMouseEvent to_float mb s)"
proof (cases mb)
  case None
  then show ?thesis
    by (simp add: VirtualControls_HandleMouseEvent_def mirrors_idle)
next
  case (Some ev)
  consider "mb_state ev = SDL_PRESSED" | "mb_state ev = SDL_RELEASED"
    | "mb_state ev \<noteq> SDL_PRESSED" "mb_state ev \<noteq> SDL_RELEASED"
    by blast
  then show ?thesis
  proof cases
    case 1
    have "mirrors s (for_buttons (flip_where (\<lambda>b. btn_pressed b = 0 \<and>
        point_in_button b (to_float (mb_x ev) / to_float (window_w s))
          (to_float (mb_y ev) / to_float (window_h s))) 1) s)"
      using inv by (rule mirrors_loop) simp
    then show ?thesis
      using 1 by (simp add: Some VirtualControls_HandleMouseEvent_def Let_def
          mouse_pressed_body_flip)
  next
    case 2
    have "mirrors s (for_buttons (flip_where (\<lambda>b. btn_pressed b \<noteq> 0) 0) s)"
      using inv by (rule mirrors_loop) simp
    then show ?thesis
      using 2 by (simp add: Some VirtualControls_HandleMouseEvent_def Let_def
          mouse_released_body_flip sdl_constants_distinct)
  next
    case 3
    then show ?thesis
      by (simp add: Some VirtualControls_HandleMouseEvent_def Let_def mirrors_idle)
  qed
qed

text \<open>
  Claim C10. Whatever the finger event (of any type, or a null pointer) and whatever the
  mouse event (of any button state, or a null pointer), the events the handler pushes are
  exactly those that the change of the registered buttons calls for, button by button in
  index order: a key-down for the button's key where the button goes from released to
  pressed, a key-up where it goes from pressed to released, and nothing for a button whose
  pressed flag is as it was. The handler changes no field of a registered button other than
  the pressed flag, so the key is the same before and after.
\<close>

theorem key_events_mirror_transitions:
  assumes "vc_inv s"
  shows "sdl_events (VirtualControls_HandleFingerEvent tf s)
       = sdl_events s @
         transition_events (registered s) (registered (VirtualControls_HandleFingerEvent tf s))
     \<and> list_all2 same_but_pressed
         (registered s) (registered (VirtualControls_HandleFingerEvent tf s))
     \<and> sdl_events (VirtualControls_HandleMouseEvent to_float mb s)
       = sdl_events s @
         transition_events (registered s)
           (registered (VirtualControls_HandleMouseEvent to_float mb s))
     \<and> list_all2 same_but_pressed
         (registered s) (registered (VirtualControls_HandleMouseEvent to_float mb s))"
  using mirrors_finger [OF assms, of tf] mirrors_mouse [OF assms, of to_float mb]
  unfolding mirrors_def by blast

theorem key_events_mirror_transitions_witness:
  "vc_inv left_held_state
   \<and> sdl_events (VirtualControls_HandleFingerEvent (Some (finger_at_left SDL_FINGERUP))
        left_held_state)
     = sdl_events left_held_state @
       transition_events (registered left_held_state)
         (registered (VirtualControls_HandleFingerEvent (Some (finger_at_left SDL_FINGERUP))
            left_held_state))
   \<and> transition_events (registered left_held_state)
         (registered (VirtualControls_HandleFingerEvent (Some (finger_at_left SDL_FINGERUP))
            left_held_state))
     = [key_up_event SDLK_LEFT]
   \<and> sdl_events (VirtualControls_HandleMouseEvent of_int (Some (mouse_at_corner SDL_PRESSED))
        left_held_state)
     = sdl_events left_held_state @
       transition_events (registered left_held_state)
         (registered (VirtualControls_HandleMouseEvent of_int
            (Some (mouse_at_corner SDL_PRESSED)) left_held_state))
   \<and> transition_events (registered left_held_state)
         (registered (VirtualControls_HandleMouseEvent of_int
            (Some (mouse_at_corner SDL_PRESSED)) left_held_state))
     = []"
proof -
  have inv: "vc_inv left_held_state" by code_simp
  note m = key_events_mirror_transitions [OF inv,
      of "Some (finger_at_left SDL_FINGERUP)" of_int "Some (mouse_at_corner SDL_PRESSED)"]
  have up: "transition_events (registered left_held_state)
         (registered (VirtualControls_HandleFingerEvent (Some (finger_at_left SDL_FINGERUP))
            left_held_state))
     = [key_up_event SDLK_LEFT]"
    by code_simp
  have none: "transition_events (registered left_held_state)
         (registered (VirtualControls_HandleMouseEvent of_int
            (Some (mouse_at_corner SDL_PRESSED)) left_held_state))
     = []"
    by code_simp
  show ?thesis
    using inv m up none by blast
qed

subsection \<open>Containment\<close>

text \<open>
  Claim C1, as amended. The containment test holds of a button and a point exactly when
  the point lies in the closed rectangle \<open>[x, x+w] \<times> [y, y+h]\<close> of the button, axis by
  axis: the comparisons are \<open>\<le>\<close> on all four sides, so a point on the right or the bottom
  edge is contained.
\<close>

theorem point_in_button_closed:
  "point_in_button b px_norm py_norm \<longleftrightarrow>
     (px_norm, py_norm) \<in> {btn_x b .. btn_x b + btn_w b} \<times> {btn_y b .. btn_y b + btn_h b}"
  by (simp add: point_in_button_def)

text \<open>
  The claim as stated fails at the right edge of the button for "left" (x = 0.05,
  w = 0.12): the point (0.17, 0.80) passes the test and is outside the half-open rectangle.
\<close>

theorem point_in_button_half_open_counterexample:
  "point_in_button (buttons demo_state ! 0) (17 / 100) (80 / 100)
   \<and> (17 / 100, 80 / 100) \<notin>
       {btn_x (buttons demo_state ! 0) ..<
          btn_x (buttons demo_state ! 0) + btn_w (buttons demo_state ! 0)}
       \<times> {btn_y (buttons demo_state ! 0) ..<
          btn_y (buttons demo_state ! 0) + btn_h (buttons demo_state ! 0)}
   \<and> 17 / 100 = btn_x (buttons demo_state ! 0) + btn_w (buttons demo_state ! 0)"
proof -
  have b: "buttons demo_state ! 0 =
      \<lparr>btn_x = 5 / 100, btn_y = 75 / 100, btn_w = 12 / 100, btn_h = 18 / 100,
       btn_key = SDLK_LEFT, btn_id = 0, btn_pressed = 0\<rparr>"
    by code_simp
  show ?thesis
    unfolding b by (simp add: point_in_button_def)
qed

subsection \<open>Resize\<close>

text \<open>
  Claim C9. For every state and every new width and height, the resize notification stores
  the two dimensions and changes nothing else: the button array (bounds, key, id and pressed
  flag of every button), the button count, the queue of key events (nothing is pushed), the
  renderer handles, the log and the OpenGL calls are as before.
\<close>

theorem resize_changes_dimensions_only:
  "window_w (VirtualControls_OnWindowResized new_w new_h s) = new_w
   \<and> window_h (VirtualControls_OnWindowResized new_w new_h s) = new_h
   \<and> buttons (VirtualControls_OnWindowResized new_w new_h s) = buttons s
   \<and> button_count (VirtualControls_OnWindowResized new_w new_h s) = button_count s
   \<and> sdl_events (VirtualControls_OnWindowResized new_w new_h s) = sdl_events s
   \<and> (VirtualControls_OnWindowResized new_w new_h s)\<lparr>window_w := window_w s, window_h := window_h s\<rparr> = s"
  by (simp add: VirtualControls_OnWindowResized_def)

subsection \<open>Registration and capacity\<close>

lemma vc_add_button_full:
  "button_count s \<ge> MAX_BUTTONS \<Longrightarrow> vc_add_button x y w h key s = (- 1, s)"
  by (simp add: vc_add_button_def)

lemma vc_add_button_room:
  assumes "vc_inv s" and "button_count s < MAX_BUTTONS"
  shows "fst (vc_add_button x y w h key s) = button_count s"
    and "button_count (snd (vc_add_button x y w h key s)) = button_count s + 1"
    and "registered (snd (vc_add_button x y w h key s)) = registered s @
           [\<lparr>btn_x = x, btn_y = y, btn_w = w, btn_h = h,
             btn_key = key, btn_id = button_count s, btn_pressed = 0\<rparr>]"
    and "vc_inv (snd (vc_add_button x y w h key s))"
proof -
  let ?n = "nat (button_count s)"
  have n: "?n < length (buttons s)" and pos: "0 \<le> button_count s"
    using assms unfolding vc_inv_def by linarith+
  show "fst (vc_add_button x y w h key s) = button_count s"
    using assms(2) by (simp add: vc_add_button_def)
  show "button_count (snd (vc_add_button x y w h key s)) = button_count s + 1"
    using assms(2) by (simp add: vc_add_button_def)
  have "nat (button_count s + 1) = Suc ?n"
    using pos by simp
  then show "registered (snd (vc_add_button x y w h key s)) = registered s @
           [\<lparr>btn_x = x, btn_y = y, btn_w = w, btn_h = h,
             btn_key = key, btn_id = button_count s, btn_pressed = 0\<rparr>]"
    using assms(2) n by (simp add: vc_add_button_def registered_def take_Suc_conv_app_nth)
  show "vc_inv (snd (vc_add_button x y w h key s))"
    using assms by (simp add: vc_add_button_def vc_inv_def)
qed

lemma fill_up:
  "k \<le> 11 \<Longrightarrow>
   vc_inv (((\<lambda>s. snd (vc_add_button x y w h key s)) ^^ k) demo_state)
   \<and> button_count (((\<lambda>s. snd (vc_add_button x y w h key s)) ^^ k) demo_state) = 5 + int k"
proof (induction k)
  case 0
  have "vc_inv demo_state" and "button_count demo_state = 5" by code_simp+
  then show ?case by simp
next
  case (Suc k)
  let ?s = "((\<lambda>s. snd (vc_add_button x y w h key s)) ^^ k) demo_state"
  from Suc have inv: "vc_inv ?s" and count: "button_count ?s = 5 + int k" by simp_all
  from count Suc.prems have room: "button_count ?s < MAX_BUTTONS"
    by (simp add: MAX_BUTTONS_def)
  show ?case
    using vc_add_button_room(2,4) [OF inv room, of x y w h key] count by simp
qed

text \<open>
  Claim C3. In every state whose button count has reached \<open>MAX_BUTTONS\<close>, which is 16,
  \<open>vc_add_button\<close> returns -1 and the state as it was: no button is added and the count is
  still 16. In every state with fewer than 16 buttons it returns the id of the new button,
  which is the previous count; the new button, released and with that id, follows the
  buttons registered before, and the count is one more.
\<close>

theorem vc_add_button_capacity:
  "(button_count s = MAX_BUTTONS \<longrightarrow>
      vc_add_button x y w h key s = (- 1, s)
      \<and> button_count (snd (vc_add_button x y w h key s)) = 16)
   \<and> (vc_inv s \<and> button_count s < MAX_BUTTONS \<longrightarrow>
      fst (vc_add_button x y w h key s) = button_count s
      \<and> button_count (snd (vc_add_button x y w h key s)) = button_count s + 1
      \<and> registered (snd (vc_add_button x y w h key s)) = registered s @
           [\<lparr>btn_x = x, btn_y = y, btn_w = w, btn_h = h,
             btn_key = key, btn_id = button_count s, btn_pressed = 0\<rparr>])"
proof (intro conjI impI)
  assume full: "button_count s = MAX_BUTTONS"
  then show "vc_add_button x y w h key s = (- 1, s)"
    by (simp add: vc_add_button_full)
  with full show "button_count (snd (vc_add_button x y w h key s)) = 16"
    by (simp add: MAX_BUTTONS_def)
next
  assume "vc_inv s \<and> button_count s < MAX_BUTTONS"
  then have inv: "vc_inv s" and room: "button_count s < MAX_BUTTONS" by simp_all
  show "fst (vc_add_button x y w h key s) = button_count s"
    using inv room by (rule vc_add_button_room)
  show "button_count (snd (vc_add_button x y w h key s)) = button_count s + 1"
    using inv room by (rule vc_add_button_room)
  show "registered (snd (vc_add_button x y w h key s)) = registered s @
           [\<lparr>btn_x = x, btn_y = y, btn_w = w, btn_h = h,
             btn_key = key, btn_id = button_count s, btn_pressed = 0\<rparr>]"
    using inv room by (rule vc_add_button_room)
qed

theorem vc_add_button_capacity_witness:
  "button_count full_state = MAX_BUTTONS
   \<and> vc_add_button (1 / 2) (1 / 2) (1 / 10) (1 / 10) SDLK_UP full_state = (- 1, full_state)
   \<and> button_count (snd (vc_add_button (1 / 2) (1 / 2) (1 / 10) (1 / 10) SDLK_UP full_state)) = 16
   \<and> vc_inv demo_state \<and> button_count demo_state < MAX_BUTTONS
   \<and> fst (vc_add_button (1 / 2) (1 / 2) (1 / 10) (1 / 10) SDLK_UP demo_state) = 5
   \<and> button_count (snd (vc_add_button (1 / 2) (1 / 2) (1 / 10) (1 / 10) SDLK_UP demo_state)) = 6"
proof -
  have full: "button_count full_state = MAX_BUTTONS"
    using fill_up [of 11 "1 / 2" "1 / 2" "1 / 10" "1 / 10" SDLK_UP]
    by (simp add: full_state_def MAX_BUTTONS_def)
  have inv: "vc_inv demo_state" by code_simp
  have count: "button_count demo_state = 5" by code_simp
  then have room: "button_count demo_state < MAX_BUTTONS"
    by (simp add: MAX_BUTTONS_def)
  note at_full = vc_add_button_capacity
      [of full_state "1 / 2" "1 / 2" "1 / 10" "1 / 10" SDLK_UP, THEN conjunct1, rule_format, OF full]
  note at_demo = vc_add_button_capacity
      [of demo_state "1 / 2" "1 / 2" "1 / 10" "1 / 10" SDLK_UP, THEN conjunct2, rule_format,
       OF conjI [OF inv room]]
  show ?thesis
    using full inv room at_full at_demo count by (simp add: MAX_BUTTONS_def)
qed

subsection \<open>Renderer resources\<close>

lemma vc_create_shader_effect:
  "vc_prog (vc_create_shader drv s) = drv_prog drv"
  "vc_vbo (vc_create_shader drv s) = drv_vbo drv"
  "button_count (vc_create_shader drv s) = button_count s"
  "sdl_log (vc_create_shader drv s) = sdl_log s @ shader_errors drv"
  "creations (vc_create_shader drv s) = creations s + 1"
  by (simp_all add: vc_create_shader_def gl_def SDL_Log_def shader_errors_def creations_def Let_def)

lemma vcount_loop: "fold (\<lambda>i vcount. vcount + 6) [0..<n] (0::int) = 6 * int n"
  by (induction n) simp_all

lemma draw_quads_effect:
  "vc_prog (draw_quads drv s) = vc_prog s"
  "vc_vbo (draw_quads drv s) = vc_vbo s"
  "button_count (draw_quads drv s) = button_count s"
  "sdl_log (draw_quads drv s) = sdl_log s"
  "creations (draw_quads drv s) = creations s"
  "GlUseProgram (vc_prog s) \<in> set (gl_calls (draw_quads drv s))"
  "GlDrawArrays (6 * int (nat (button_count s))) \<in> set (gl_calls (draw_quads drv s))"
  by (simp_all add: draw_quads_def gl_def creations_def Let_def vcount_loop)

lemma draw_lazy:
  "button_count s \<noteq> 0 \<Longrightarrow> vc_prog s = 0 \<Longrightarrow>
   VirtualControls_Draw drv s = draw_quads drv (vc_create_shader drv s)"
  by (simp add: VirtualControls_Draw_def)

lemma draw_ready:
  "button_count s \<noteq> 0 \<Longrightarrow> vc_prog s \<noteq> 0 \<Longrightarrow> VirtualControls_Draw drv s = draw_quads drv s"
  by (simp add: VirtualControls_Draw_def)

lemma draw_no_buttons:
  "button_count s = 0 \<Longrightarrow> VirtualControls_Draw drv s = s"
  by (simp add: VirtualControls_Draw_def)

text \<open>
  Claim C2, as amended. When \<open>draw()\<close> triggers the lazy creation (at least one button,
  no program yet), every stage that fails is logged and creation carries on: the stored
  program handle is the one \<open>glCreateProgram\<close> returned, whatever the compile and link
  status, and the same call goes on to draw with that handle. The next \<open>draw()\<close> asks for
  a program again only if the stored handle is zero, that is, only if \<open>glCreateProgram\<close>
  itself returned 0; with a non-zero handle it logs nothing more.
\<close>

theorem draw_after_failed_creation:
  assumes "button_count s \<noteq> 0" and "vc_prog s = 0"
  shows "sdl_log (VirtualControls_Draw drv s) = sdl_log s @ shader_errors drv
     \<and> vc_prog (VirtualControls_Draw drv s) = drv_prog drv
     \<and> GlUseProgram (drv_prog drv) \<in> set (gl_calls (VirtualControls_Draw drv s))
     \<and> GlDrawArrays (6 * int (nat (button_count s))) \<in> set (gl_calls (VirtualControls_Draw drv s))
     \<and> creations (VirtualControls_Draw drv' (VirtualControls_Draw drv s))
       = creations (VirtualControls_Draw drv s) + (if drv_prog drv = 0 then 1 else 0)
     \<and> (drv_prog drv \<noteq> 0 \<longrightarrow>
          sdl_log (VirtualControls_Draw drv' (VirtualControls_Draw drv s))
          = sdl_log (VirtualControls_Draw drv s))"
proof -
  let ?s1 = "VirtualControls_Draw drv s"
  have s1: "?s1 = draw_quads drv (vc_create_shader drv s)"
    using assms by (rule draw_lazy)
  have count1: "button_count ?s1 \<noteq> 0" and prog1: "vc_prog ?s1 = drv_prog drv"
    using assms(1) by (simp_all add: s1 draw_quads_effect vc_create_shader_effect)
  have log1: "sdl_log ?s1 = sdl_log s @ shader_errors drv"
    by (simp add: s1 draw_quads_effect vc_create_shader_effect)
  have use: "GlUseProgram (drv_prog drv) \<in> set (gl_calls ?s1)"
    unfolding s1 using draw_quads_effect(6) [of "vc_create_shader drv s" drv]
    by (simp add: vc_create_shader_effect)
  have arrays: "GlDrawArrays (6 * int (nat (button_count s))) \<in> set (gl_calls ?s1)"
    unfolding s1 using draw_quads_effect(7) [of "vc_create_shader drv s" drv]
    by (simp add: vc_create_shader_effect)
  have again: "creations (VirtualControls_Draw drv' ?s1)
       = creations ?s1 + (if drv_prog drv = 0 then 1 else 0)"
  proof (cases "drv_prog drv = 0")
    case True
    then have "VirtualControls_Draw drv' ?s1 = draw_quads drv' (vc_create_shader drv' ?s1)"
      using count1 prog1 by (intro draw_lazy) simp_all
    with True show ?thesis
      by (simp add: draw_quads_effect vc_create_shader_effect)
  next
    case False
    then have "VirtualControls_Draw drv' ?s1 = draw_quads drv' ?s1"
      using count1 prog1 by (intro draw_ready) simp_all
    with False show ?thesis
      by (simp add: draw_quads_effect)
  qed
  have quiet: "sdl_log (VirtualControls_Draw drv' ?s1) = sdl_log ?s1" if "drv_prog drv \<noteq> 0"
  proof -
    have "VirtualControls_Draw drv' ?s1 = draw_quads drv' ?s1"
      using count1 prog1 that by (intro draw_ready) simp_all
    then show ?thesis
      by (simp add: draw_quads_effect)
  qed
  from log1 prog1 use arrays again quiet show ?thesis
    by blast
qed

theorem draw_after_failed_creation_witness:
  "button_count demo_state \<noteq> 0 \<and> vc_prog demo_state = 0
   \<and> sdl_log (VirtualControls_Draw driver_link_fails demo_state) = [''VC link error: link failed'']
   \<and> vc_prog (VirtualControls_Draw driver_link_fails demo_state) = 3
   \<and> GlUseProgram 3 \<in> set (gl_calls (VirtualControls_Draw driver_link_fails demo_state))
   \<and> creations (VirtualControls_Draw driver_ok (VirtualControls_Draw driver_link_fails demo_state))
     = creations (VirtualControls_Draw driver_link_fails demo_state)
   \<and> sdl_log (VirtualControls_Draw driver_ok (VirtualControls_Draw driver_link_fails demo_state))
     = sdl_log (VirtualControls_Draw driver_link_fails demo_state)"
proof -
  have count: "button_count demo_state \<noteq> 0" by code_simp
  have lazy: "vc_prog demo_state = 0" by code_simp
  have drv: "drv_prog driver_link_fails = 3" "drv_prog driver_link_fails \<noteq> 0"
    "sdl_log demo_state @ shader_errors driver_link_fails = [''VC link error: link failed'']"
    by code_simp+
  note d = draw_after_failed_creation [OF count lazy, of driver_link_fails driver_ok]
  show ?thesis
    using count lazy d drv by simp
qed

text \<open>
  The claim as stated fails when linking fails and the driver has handed out a program
  object, as drivers do: the link error is logged, but the stored handle is that object's
  (3 here), not zero; the frame is drawn with it; and the next \<open>draw()\<close>, even with a
  driver that would now succeed, does not ask for a program again.
\<close>

theorem draw_after_link_failure_counterexample:
  "drv_link_status driver_link_fails = 0
   \<and> sdl_log (VirtualControls_Draw driver_link_fails demo_state) = [''VC link error: link failed'']
   \<and> vc_prog (VirtualControls_Draw driver_link_fails demo_state) \<noteq> 0
   \<and> GlDrawArrays 30 \<in> set (gl_calls (VirtualControls_Draw driver_link_fails demo_state))
   \<and> creations (VirtualControls_Draw driver_link_fails demo_state) = 1
   \<and> creations (VirtualControls_Draw driver_ok (VirtualControls_Draw driver_link_fails demo_state)) = 1"
  by code_simp

subsection \<open>Shutdown\<close>






end
